theory Spec2Isabelle
  imports Main "HOL-Library.AList"
begin

section \<open>Python strings\<close>

text \<open>
  A Python \<open>str\<close> is a sequence of Unicode code points, and the listing parser compares a
  token with the bullet U+25CF, which is no single byte. A string is therefore a list of
  code points, each a natural number. \<open>ascii\<close> embeds an ASCII literal.
\<close>

type_synonym pystr = "nat list"

definition ascii :: "string \<Rightarrow> pystr" where
  "ascii s = map of_char s"

text \<open>The bullet \<open>"\<bullet>"\<close> of line 137 of the source is the one code point U+25CF.\<close>

definition bullet :: pystr where
  "bullet = [9679]"

text \<open>
  \<open>str.isspace\<close> on one code point, as CPython's table of white space has it: U+0009 to
  U+000D, U+001C to U+0020, U+0085, U+00A0, U+1680, U+2000 to U+200A, U+2028, U+2029,
  U+202F, U+205F and U+3000. \<open>str.split()\<close>, \<open>str.strip()\<close> and \<open>str.rstrip()\<close> without
  an argument all use it.
\<close>

definition isspace :: "nat \<Rightarrow> bool" where
  "isspace c \<longleftrightarrow>
     (9 \<le> c \<and> c \<le> 13) \<or> (28 \<le> c \<and> c \<le> 32) \<or> c = 133 \<or> c = 160 \<or> c = 5760 \<or>
     (8192 \<le> c \<and> c \<le> 8202) \<or> c = 8232 \<or> c = 8233 \<or> c = 8239 \<or> c = 8287 \<or> c = 12288"

text \<open>
  The line boundaries of \<open>str.splitlines\<close>: LF, VT, FF, CR, FS, GS, RS, NEL, LS and PS
  (CR LF counts as one boundary, see \<open>splitlines_from\<close>).
\<close>

definition is_linebreak :: "nat \<Rightarrow> bool" where
  "is_linebreak c \<longleftrightarrow>
     (10 \<le> c \<and> c \<le> 13) \<or> (28 \<le> c \<and> c \<le> 30) \<or> c = 133 \<or> c = 8232 \<or> c = 8233"

text \<open>
  \<open>s.splitlines()\<close>: the lines of \<open>s\<close> without their line ends; a final line end opens no
  further line, and the empty string has no line. \<open>cur\<close> is the line read so far.
\<close>

fun splitlines_from :: "pystr \<Rightarrow> pystr \<Rightarrow> pystr list" where
  "splitlines_from cur [] = (if cur = [] then [] else [cur])"
| "splitlines_from cur [c] =
     (if is_linebreak c then [cur] else [cur @ [c]])"
| "splitlines_from cur (c # d # cs) =
     (if c = 13 \<and> d = 10 then cur # splitlines_from [] cs
      else if is_linebreak c then cur # splitlines_from [] (d # cs)
      else splitlines_from (cur @ [c]) (d # cs))"

definition splitlines :: "pystr \<Rightarrow> pystr list" where
  "splitlines s = splitlines_from [] s"

text \<open>
  \<open>s.split()\<close> without an argument: the maximal runs of characters that are not white
  space, in order; never an empty token. \<open>cur\<close> is the token read so far.
\<close>

fun split_from :: "pystr \<Rightarrow> pystr \<Rightarrow> pystr list" where
  "split_from cur [] = (if cur = [] then [] else [cur])"
| "split_from cur (c # cs) =
     (if isspace c then (if cur = [] then split_from [] cs else cur # split_from [] cs)
      else split_from (cur @ [c]) cs)"

definition split_ws :: "pystr \<Rightarrow> pystr list" where
  "split_ws s = split_from [] s"

definition lstrip :: "pystr \<Rightarrow> pystr" where
  "lstrip s = dropWhile isspace s"

definition rstrip :: "pystr \<Rightarrow> pystr" where
  "rstrip s = rev (dropWhile isspace (rev s))"

definition strip :: "pystr \<Rightarrow> pystr" where
  "strip s = rstrip (lstrip s)"

text \<open>\<open>sep.join(xs)\<close>.\<close>

fun join :: "pystr \<Rightarrow> pystr list \<Rightarrow> pystr" where
  "join sep [] = []"
| "join sep [x] = x"
| "join sep (x # y # ys) = x @ sep @ join sep (y # ys)"

section \<open>Dictionaries\<close>

text \<open>
  A Python \<open>dict\<close> keeps its keys in the order of their first insertion, and an assignment
  to a key that is present replaces the value where it stands: an association list
  written with \<open>AList.update\<close>. \<open>d.get(k, default)\<close> is \<open>dict_get\<close>.
\<close>

type_synonym 'v dict = "(pystr \<times> 'v) list"

definition dict_set :: "pystr \<Rightarrow> 'v \<Rightarrow> 'v dict \<Rightarrow> 'v dict" where
  "dict_set k v d = AList.update k v d"

definition dict_get :: "'v dict \<Rightarrow> pystr \<Rightarrow> 'v \<Rightarrow> 'v" where
  "dict_get d k dflt = (case map_of d k of None \<Rightarrow> dflt | Some v \<Rightarrow> v)"

definition dict_keys :: "'v dict \<Rightarrow> pystr list" where
  "dict_keys d = map fst d"

definition dict_values :: "'v dict \<Rightarrow> 'v list" where
  "dict_values d = map snd d"

section \<open>The command runner\<close>

text \<open>
  \<open>subprocess.run\<close> is the environment: given the argument vector it either completes,
  with a return code and the two captured texts, or raises. The handlers of
  \<open>run_command\<close> tell \<open>FileNotFoundError\<close> from every other subclass of \<open>Exception\<close>;
  each exception carries \<open>str(ex)\<close>.
\<close>

datatype py_exception = FileNotFoundError pystr | OtherException pystr

record completed_process =
  returncode :: int
  stdout :: pystr
  stderr :: pystr

type_synonym subprocess = "pystr list \<Rightarrow> py_exception + completed_process"

text \<open>Lines 58 to 61: the argument vector that is dispatched. \<open>command[1:]\<close> is \<open>drop 1\<close>.\<close>

definition full_cmd :: "pystr list \<Rightarrow> bool \<Rightarrow> pystr list" where
  "full_cmd command require_root =
     (if require_root then [ascii ''pkexec'', ascii ''/usr/bin/systemctl''] @ drop 1 command
      else command)"

definition run_command :: "subprocess \<Rightarrow> pystr list \<Rightarrow> bool \<Rightarrow> int \<times> pystr \<times> pystr" where
  "run_command run command require_root =
     (case run (full_cmd command require_root) of
        Inr proc \<Rightarrow> (returncode proc, stdout proc, stderr proc)
      | Inl (FileNotFoundError ex) \<Rightarrow> (1, [], ascii ''Command not found: '' @ ex)
      | Inl (OtherException ex) \<Rightarrow> (1, [], ascii ''Unexpected error: '' @ ex))"

section \<open>The unit-list collector\<close>

record service_record =
  unit :: pystr
  load :: pystr
  active :: pystr
  sub :: pystr
  description :: pystr
  enabled :: pystr

datatype error = RuntimeError pystr

definition list_unit_files_cmd :: "pystr list" where
  "list_unit_files_cmd =
     [ascii ''systemctl'', ascii ''list-unit-files'', ascii ''--type=service'',
      ascii ''--no-legend'', ascii ''--no-pager'']"

definition list_units_cmd :: "pystr list" where
  "list_units_cmd =
     [ascii ''systemctl'', ascii ''list-units'', ascii ''--type=service'', ascii ''--all'',
      ascii ''--no-legend'', ascii ''--no-pager'']"

text \<open>Lines 99 to 110: the body of the loop over the lines of the enablement listing.\<close>

definition enabled_map_step :: "pystr \<Rightarrow> pystr dict \<Rightarrow> pystr dict" where
  "enabled_map_step line0 enabled_map =
     (let line = strip line0 in
      if line = [] then enabled_map
      else let parts = split_ws line in
        if length parts < 2 then enabled_map
        else let unit_file = parts ! 0; state = parts ! 1 in
          dict_set unit_file state enabled_map)"

text \<open>Lines 93 to 113: the enablement mapping, from the exit code and the output.\<close>

definition build_enabled_map :: "int \<Rightarrow> pystr \<Rightarrow> pystr dict" where
  "build_enabled_map code out =
     (if code = 0 then fold enabled_map_step (splitlines out) [] else [])"

text \<open>
  Lines 127 to 142: the fields of one line of the live listing, \<open>None\<close> where the loop
  says \<open>continue\<close>.
\<close>

definition unit_line_parts :: "pystr \<Rightarrow> pystr list option" where
  "unit_line_parts line0 =
     (let line = rstrip line0 in
      if line = [] then None
      else let parts = split_ws line;
               parts = (if parts \<noteq> [] \<and> parts ! 0 = bullet then drop 1 parts else parts) in
        if length parts < 5 then None else Some parts)"

text \<open>Lines 144 to 159: the record built from the fields of a line.\<close>

definition unit_record :: "pystr dict \<Rightarrow> pystr list \<Rightarrow> service_record" where
  "unit_record enabled_map parts =
     \<lparr>unit = parts ! 0, load = parts ! 1, active = parts ! 2, sub = parts ! 3,
      description = join (ascii '' '') (drop 4 parts),
      enabled = dict_get enabled_map (parts ! 0) (ascii ''?'')\<rparr>"

text \<open>Lines 126 to 159: the body of the loop over the lines of the live listing.\<close>

definition runtime_services_step ::
  "pystr dict \<Rightarrow> pystr \<Rightarrow> service_record dict \<Rightarrow> service_record dict" where
  "runtime_services_step enabled_map line runtime_services =
     (case unit_line_parts line of
        None \<Rightarrow> runtime_services
      | Some parts \<Rightarrow>
          dict_set (parts ! 0) (unit_record enabled_map parts) runtime_services)"

definition build_runtime_services :: "pystr dict \<Rightarrow> pystr \<Rightarrow> service_record dict" where
  "build_runtime_services enabled_map out =
     fold (runtime_services_step enabled_map) (splitlines out) []"

text \<open>Lines 168 to 177: the record of a unit that only the enablement listing names.\<close>

definition placeholder :: "pystr \<times> pystr \<Rightarrow> service_record" where
  "placeholder us =
     \<lparr>unit = fst us, load = ascii ''n/a'', active = ascii ''inactive'', sub = ascii ''dead'',
      description = ascii ''Not loaded (available to enable/start)'',
      enabled = snd us\<rparr>"

text \<open>Lines 161 to 179: the records of the live units, then one for each other unit.\<close>

definition merge_services :: "pystr dict \<Rightarrow> service_record dict \<Rightarrow> service_record list" where
  "merge_services enabled_map runtime_services =
     dict_values runtime_services @
     map placeholder
       (filter (\<lambda>us. fst us \<notin> set (dict_keys runtime_services)) enabled_map)"

text \<open>
  \<open>get_services_list\<close>, with the environment as its argument; \<open>Inl\<close> is the exception it
  raises.
\<close>

definition get_services_list :: "subprocess \<Rightarrow> error + service_record list" where
  "get_services_list run =
     (case run_command run list_unit_files_cmd False of (code, out, err) \<Rightarrow>
        let enabled_map = build_enabled_map code out in
        (case run_command run list_units_cmd False of (code, out, err) \<Rightarrow>
           if code \<noteq> 0 then Inl (RuntimeError (ascii ''Failed to list services:'' @ err))
           else Inr (merge_services enabled_map (build_runtime_services enabled_map out))))"

section \<open>The presentation layer\<close>

datatype QColor = QColor pystr

definition service_state_color :: "pystr \<Rightarrow> pystr \<Rightarrow> QColor" where
  "service_state_color active_state enabled_state =
     (if enabled_state \<in> {ascii ''disabled'', ascii ''masked''} then QColor (ascii ''black'')
      else if active_state = ascii ''active'' then QColor (ascii ''green'')
      else QColor (ascii ''red''))"

text \<open>
  The selection of the table: no row, or the row of one record. \<open>get_selected_unit\<close>
  reads column 0 of the selected row, \<open>get_selected_row_states\<close> its columns 3 and 5,
  where \<open>populate_model\<close> put \<open>unit\<close>, \<open>active\<close> and \<open>enabled\<close>; both give empty
  strings when nothing is selected.
\<close>

definition get_selected_unit :: "service_record option \<Rightarrow> pystr" where
  "get_selected_unit selection = (case selection of None \<Rightarrow> [] | Some row \<Rightarrow> unit row)"

definition get_selected_row_states :: "service_record option \<Rightarrow> pystr \<times> pystr" where
  "get_selected_row_states selection =
     (case selection of None \<Rightarrow> ([], []) | Some row \<Rightarrow> (active row, enabled row))"

text \<open>Whether each button is enabled, as \<open>setEnabled\<close> leaves it.\<close>

record buttons =
  start_button :: bool
  stop_button :: bool
  restart_button :: bool
  reload_button :: bool
  enable_button :: bool
  disable_button :: bool
  mask_button :: bool
  unmask_button :: bool
  status_button :: bool

definition update_buttons_enabled_state :: "service_record option \<Rightarrow> buttons" where
  "update_buttons_enabled_state selection =
     (let unit = get_selected_unit selection;
          has_selection = (unit \<noteq> []);
          (active_state, enabled_state) = get_selected_row_states selection;
          b = \<lparr>start_button = has_selection, stop_button = has_selection,
               restart_button = has_selection, reload_button = has_selection,
               enable_button = has_selection, disable_button = has_selection,
               mask_button = has_selection, unmask_button = has_selection,
               status_button = has_selection\<rparr>
      in if \<not> has_selection then b
         else
           let b = (if active_state = ascii ''active''
                    then b\<lparr>start_button := False, stop_button := True,
                           restart_button := True, reload_button := True\<rparr>
                    else b\<lparr>start_button := True, stop_button := False,
                           restart_button := False, reload_button := True\<rparr>)
           in if enabled_state = ascii ''enabled''
              then b\<lparr>enable_button := False, disable_button := True,
                     mask_button := True, unmask_button := False\<rparr>
              else if enabled_state = ascii ''disabled''
              then b\<lparr>enable_button := True, disable_button := False,
                     mask_button := True, unmask_button := False\<rparr>
              else if enabled_state = ascii ''masked''
              then b\<lparr>enable_button := False, disable_button := False,
                     mask_button := False, unmask_button := True\<rparr>
              else b\<lparr>enable_button := True, disable_button := True,
                     mask_button := True, unmask_button := True\<rparr>)"

section \<open>Notions the properties speak of\<close>

text \<open>
  The units the live listing names: the first field of every line of the output that the
  loop of \<open>get_services_list\<close> does not skip, in the order of the lines.
\<close>

definition live_units :: "pystr \<Rightarrow> pystr list" where
  "live_units out = map (\<lambda>parts. parts ! 0) (List.map_filter unit_line_parts (splitlines out))"

text \<open>
  The tokens of a line of the live listing once the leading bullet, if there is one, is
  dropped (lines 134 to 138), and the record the loop of \<open>get_services_list\<close> builds
  from a line, \<open>None\<close> where it skips the line.
\<close>

definition tokens_after_bullet :: "pystr \<Rightarrow> pystr list" where
  "tokens_after_bullet line =
     (let parts = split_ws line
      in if parts \<noteq> [] \<and> parts ! 0 = bullet then drop 1 parts else parts)"

definition parsed_record :: "pystr dict \<Rightarrow> pystr \<Rightarrow> service_record option" where
  "parsed_record enabled_map line = map_option (unit_record enabled_map) (unit_line_parts line)"

text \<open>
  What it is for a dispatched vector to run the same logical command as a command list:
  behind the wrapper it names the same program, by the last component of its path, and
  passes the same arguments.
\<close>

definition basename :: "pystr \<Rightarrow> pystr" where
  "basename path = rev (takeWhile (\<lambda>c. c \<noteq> 47) (rev path))"

definition same_logical_command :: "pystr list \<Rightarrow> pystr list \<Rightarrow> bool" where
  "same_logical_command command dispatched =
     (case (command, dispatched) of
        (exe # args, wrapper # program # args') \<Rightarrow>
          basename program = basename exe \<and> args' = args
      | _ \<Rightarrow> False)"

section \<open>An example environment\<close>

text \<open>
  A service manager that answers the two listing commands: the live listing has the one
  line of the specification's end-to-end example, the enablement listing names that unit
  and a second one, \<open>cron.service\<close>, that is not loaded. \<open>failing_run\<close> is a host where
  the enablement listing works and the live listing exits with code 1, \<open>degraded_run\<close>
  one where only the live listing works, \<open>missing_run\<close> one where no executable is
  found, and \<open>crashing_run\<close> one where every invocation fails in another way.
\<close>

definition example_units_out :: pystr where
  "example_units_out =
     ascii ''ssh.service loaded active running OpenBSD Secure Shell server''"

definition example_files_out :: pystr where
  "example_files_out =
     ascii ''ssh.service enabled enabled'' @ [10] @ ascii ''cron.service disabled enabled''"

definition example_run :: subprocess where
  "example_run cmd =
     (if cmd = list_unit_files_cmd
      then Inr \<lparr>returncode = 0, stdout = example_files_out, stderr = []\<rparr>
      else if cmd = list_units_cmd
      then Inr \<lparr>returncode = 0, stdout = example_units_out, stderr = []\<rparr>
      else Inl (FileNotFoundError (ascii ''No such file or directory'')))"

definition failing_run :: subprocess where
  "failing_run cmd =
     (if cmd = list_unit_files_cmd
      then Inr \<lparr>returncode = 0, stdout = example_files_out, stderr = []\<rparr>
      else Inr \<lparr>returncode = 1, stdout = [], stderr = ascii ''Failed to connect to bus''\<rparr>)"

definition degraded_run :: subprocess where
  "degraded_run cmd =
     (if cmd = list_units_cmd
      then Inr \<lparr>returncode = 0, stdout = example_units_out, stderr = []\<rparr>
      else Inr \<lparr>returncode = 1, stdout = [], stderr = ascii ''Failed to connect to bus''\<rparr>)"

definition missing_run :: subprocess where
  "missing_run cmd = Inl (FileNotFoundError (ascii ''No such file or directory''))"

definition crashing_run :: subprocess where
  "crashing_run cmd = Inl (OtherException (ascii ''embedded null byte''))"

text \<open>An enablement listing that names one unit file twice and has a line of one token.\<close>

definition duplicate_files_out :: pystr where
  "duplicate_files_out =
     ascii ''ssh.service disabled'' @ [10] @ ascii ''ssh.service enabled enabled'' @ [10] @
     ascii ''cron.service''"

text \<open>
  \<open>short_live_run\<close> is a host whose live listing has one line of four fields, a unit
  without a description, and whose enablement listing is empty; \<open>pkexec_run\<close> one where
  only the elevated restart of \<open>ssh.service\<close> is found and succeeds.
\<close>

definition short_live_run :: subprocess where
  "short_live_run cmd =
     (if cmd = list_units_cmd
      then Inr \<lparr>returncode = 0, stdout = ascii ''ssh.service loaded active running'',
                stderr = []\<rparr>
      else Inr \<lparr>returncode = 0, stdout = [], stderr = []\<rparr>)"

definition pkexec_run :: subprocess where
  "pkexec_run cmd =
     (if cmd = [ascii ''pkexec'', ascii ''/usr/bin/systemctl'', ascii ''restart'',
                ascii ''ssh.service'']
      then Inr \<lparr>returncode = 0, stdout = [], stderr = []\<rparr>
      else Inl (FileNotFoundError (ascii ''No such file or directory'')))"

section \<open>White space, tokens and lines\<close>

lemma split_from_all_space:
  "\<forall>c\<in>set ws. isspace c \<Longrightarrow> split_from cur ws = (if cur = [] then [] else [cur])"
  by (induction ws arbitrary: cur) auto

lemma split_from_space_suffix:
  "\<forall>c\<in>set ws. isspace c \<Longrightarrow> split_from cur (s @ ws) = split_from cur s"
  by (induction s arbitrary: cur) (auto simp: split_from_all_space)

lemma split_from_space_prefix:
  "\<forall>c\<in>set ws. isspace c \<Longrightarrow> split_from [] (ws @ s) = split_from [] s"
  by (induction ws) auto

lemma rstrip_decomp: "rstrip s @ rev (takeWhile isspace (rev s)) = s"
proof -
  have "rev (takeWhile isspace (rev s) @ dropWhile isspace (rev s)) = s"
    by simp
  then show ?thesis
    unfolding rstrip_def by (simp only: rev_append)
qed

text \<open>Stripping a line does not change its tokens.\<close>

lemma split_ws_rstrip: "split_ws (rstrip s) = split_ws s"
proof -
  have "\<forall>c\<in>set (rev (takeWhile isspace (rev s))). isspace c"
    by (auto dest: set_takeWhileD)
  then have "split_from [] (rstrip s @ rev (takeWhile isspace (rev s))) = split_from [] (rstrip s)"
    by (rule split_from_space_suffix)
  then show ?thesis
    by (simp add: split_ws_def rstrip_decomp)
qed

lemma split_ws_lstrip: "split_ws (lstrip s) = split_ws s"
proof -
  have "\<forall>c\<in>set (takeWhile isspace s). isspace c"
    by (auto dest: set_takeWhileD)
  then have "split_from [] (takeWhile isspace s @ dropWhile isspace s) =
             split_from [] (dropWhile isspace s)"
    by (rule split_from_space_prefix)
  then show ?thesis
    by (simp add: split_ws_def lstrip_def)
qed

lemma split_ws_strip: "split_ws (strip s) = split_ws s"
  by (simp add: strip_def split_ws_rstrip split_ws_lstrip)

lemma split_ws_Nil: "split_ws [] = []"
  by (simp add: split_ws_def)

text \<open>A token is never empty.\<close>

lemma split_from_nonempty: "t \<in> set (split_from cur s) \<Longrightarrow> t \<noteq> []"
  by (induction s arbitrary: cur) (auto split: if_splits)

lemma split_ws_nonempty: "t \<in> set (split_ws s) \<Longrightarrow> t \<noteq> []"
  unfolding split_ws_def by (rule split_from_nonempty)

section \<open>Lists with distinct keys\<close>

lemma distinct_filter_key:
  "distinct (map f xs) \<Longrightarrow> x \<in> set xs \<Longrightarrow> filter (\<lambda>y. f y = f x) xs = [x]"
proof (induction xs)
  case Nil
  then show ?case by simp
next
  case (Cons a xs)
  show ?case
  proof (cases "a = x")
    case True
    from Cons.prems(1) True have "f x \<notin> f ` set xs" by simp
    then have "\<forall>y\<in>set xs. f y \<noteq> f x" by (metis imageI)
    then have "filter (\<lambda>y. f y = f x) xs = []" by (simp add: filter_empty_conv)
    with True show ?thesis by simp
  next
    case False
    with Cons.prems have "x \<in> set xs" "f a \<noteq> f x" by auto
    with Cons show ?thesis by simp
  qed
qed

section \<open>The two dictionaries of the collector\<close>

lemma unit_line_parts_Some:
  "unit_line_parts line = Some parts \<Longrightarrow> 5 \<le> length parts \<and> set parts \<subseteq> set (split_ws line)"
  by (auto simp: unit_line_parts_def Let_def split_ws_rstrip split: if_splits dest: in_set_dropD)

lemma unit_line_parts_tokens:
  "split_ws line = parts \<Longrightarrow> 5 \<le> length parts \<Longrightarrow> parts ! 0 \<noteq> bullet \<Longrightarrow> unit_line_parts line = Some parts"
  using split_ws_rstrip[of line] by (auto simp: unit_line_parts_def Let_def split_ws_Nil)

lemma unit_line_parts_bullet:
  "split_ws line = bullet # parts \<Longrightarrow> 5 \<le> length parts \<Longrightarrow> unit_line_parts line = Some parts"
  using split_ws_rstrip[of line] by (auto simp: unit_line_parts_def Let_def split_ws_Nil)

lemma set_update_subset: "set (AList.update k v al) \<subseteq> insert (k, v) (set al)"
  by (induction al) auto

lemma enabled_map_step_skip:
  "length (split_ws line) < 2 \<Longrightarrow> enabled_map_step line m = m"
  by (simp add: enabled_map_step_def Let_def split_ws_strip)

lemma enabled_map_step_set:
  "split_ws line = u # s # rest \<Longrightarrow> enabled_map_step line m = dict_set u s m"
  using split_ws_strip[of line] by (auto simp: enabled_map_step_def Let_def split_ws_Nil)

lemma enabled_map_step_cases:
  obtains "enabled_map_step line m = m"
  | u s rest where "split_ws line = u # s # rest" "enabled_map_step line m = dict_set u s m"
proof (cases "length (split_ws line) < 2")
  case True
  then show ?thesis using that(1) by (simp add: enabled_map_step_skip)
next
  case False
  then obtain u s rest where "split_ws line = u # s # rest"
    by (cases "split_ws line"; cases "tl (split_ws line)") auto
  then show ?thesis using that(2) by (simp add: enabled_map_step_set)
qed

lemma enabled_map_step_distinct:
  "distinct (map fst m) \<Longrightarrow> distinct (map fst (enabled_map_step line m))"
  by (cases line m rule: enabled_map_step_cases) (simp_all add: dict_set_def distinct_update)

lemma fold_enabled_map_distinct:
  "distinct (map fst m) \<Longrightarrow> distinct (map fst (fold enabled_map_step ls m))"
  by (induction ls arbitrary: m) (simp_all add: enabled_map_step_distinct)

lemma build_enabled_map_distinct: "distinct (map fst (build_enabled_map code out))"
  by (simp add: build_enabled_map_def fold_enabled_map_distinct)

lemma enabled_map_step_keys:
  assumes "[] \<notin> set (map fst m)"
  shows "[] \<notin> set (map fst (enabled_map_step line m))"
proof (cases line m rule: enabled_map_step_cases)
  case 1
  with assms show ?thesis by simp
next
  case (2 u s rest)
  have "u \<in> set (split_ws line)" using 2(1) by simp
  then have "u \<noteq> []" by (rule split_ws_nonempty)
  with assms show ?thesis unfolding 2(2) dict_set_def update_keys by auto
qed

lemma fold_enabled_map_keys:
  "[] \<notin> set (map fst m) \<Longrightarrow> [] \<notin> set (map fst (fold enabled_map_step ls m))"
proof (induction ls arbitrary: m)
  case Nil
  then show ?case by simp
next
  case (Cons l ls)
  from Cons.prems have "[] \<notin> set (map fst (enabled_map_step l m))"
    by (rule enabled_map_step_keys)
  then have "[] \<notin> set (map fst (fold enabled_map_step ls (enabled_map_step l m)))"
    by (rule Cons.IH)
  then show ?case by simp
qed

lemma build_enabled_map_keys: "[] \<notin> set (dict_keys (build_enabled_map code out))"
proof (cases "code = 0")
  case True
  have "[] \<notin> set (map fst (fold enabled_map_step (splitlines out) []))"
    by (rule fold_enabled_map_keys) simp
  with True show ?thesis by (simp add: build_enabled_map_def dict_keys_def)
next
  case False
  then show ?thesis by (simp add: build_enabled_map_def dict_keys_def)
qed

lemma runtime_services_step_skip:
  "unit_line_parts line = None \<Longrightarrow> runtime_services_step em line rt = rt"
  by (simp add: runtime_services_step_def)

lemma runtime_services_step_set:
  "unit_line_parts line = Some parts \<Longrightarrow>
   runtime_services_step em line rt = dict_set (parts ! 0) (unit_record em parts) rt"
  by (simp add: runtime_services_step_def)

lemma unit_record_unit: "unit (unit_record em parts) = parts ! 0"
  by (simp add: unit_record_def)

lemma unit_record_enabled:
  "enabled (unit_record em parts) = dict_get em (parts ! 0) (ascii ''?'')"
  by (simp add: unit_record_def)

lemma runtime_services_step_distinct:
  "distinct (map fst rt) \<Longrightarrow> distinct (map fst (runtime_services_step em line rt))"
  by (cases "unit_line_parts line")
     (simp_all add: runtime_services_step_def dict_set_def distinct_update)

lemma runtime_services_step_keyed:
  assumes "\<forall>p\<in>set rt. unit (snd p) = fst p \<and> enabled (snd p) = dict_get em (fst p) (ascii ''?'')"
  shows "\<forall>p\<in>set (runtime_services_step em line rt).
           unit (snd p) = fst p \<and> enabled (snd p) = dict_get em (fst p) (ascii ''?'')"
proof (cases "unit_line_parts line")
  case None
  with assms show ?thesis by (simp add: runtime_services_step_skip)
next
  case (Some parts)
  show ?thesis
  proof
    fix p assume "p \<in> set (runtime_services_step em line rt)"
    then have "p \<in> insert (parts ! 0, unit_record em parts) (set rt)"
      using set_update_subset[of "parts ! 0" "unit_record em parts" rt] Some
      by (auto simp: runtime_services_step_set dict_set_def)
    then show "unit (snd p) = fst p \<and> enabled (snd p) = dict_get em (fst p) (ascii ''?'')"
      using assms by (auto simp: unit_record_unit unit_record_enabled)
  qed
qed

lemma runtime_services_step_keys:
  "set (map fst (runtime_services_step em line rt)) =
   set (map fst rt) \<union> set (map (\<lambda>parts. parts ! 0) (List.map_filter unit_line_parts [line]))"
  by (cases "unit_line_parts line")
     (auto simp: runtime_services_step_def dict_set_def dom_update)

lemma fold_runtime_services_distinct:
  "distinct (map fst rt) \<Longrightarrow> distinct (map fst (fold (runtime_services_step em) ls rt))"
  by (induction ls arbitrary: rt) (simp_all add: runtime_services_step_distinct)

lemma fold_runtime_services_keyed:
  "\<forall>p\<in>set rt. unit (snd p) = fst p \<and> enabled (snd p) = dict_get em (fst p) (ascii ''?'') \<Longrightarrow>
   \<forall>p\<in>set (fold (runtime_services_step em) ls rt).
      unit (snd p) = fst p \<and> enabled (snd p) = dict_get em (fst p) (ascii ''?'')"
proof (induction ls arbitrary: rt)
  case Nil
  then show ?case by simp
next
  case (Cons l ls)
  from Cons.prems
  have "\<forall>p\<in>set (runtime_services_step em l rt).
          unit (snd p) = fst p \<and> enabled (snd p) = dict_get em (fst p) (ascii ''?'')"
    by (rule runtime_services_step_keyed)
  then have "\<forall>p\<in>set (fold (runtime_services_step em) ls (runtime_services_step em l rt)).
          unit (snd p) = fst p \<and> enabled (snd p) = dict_get em (fst p) (ascii ''?'')"
    by (rule Cons.IH)
  then show ?case by simp
qed

lemma fold_runtime_services_keys:
  "set (map fst (fold (runtime_services_step em) ls rt)) =
   set (map fst rt) \<union> set (map (\<lambda>parts. parts ! 0) (List.map_filter unit_line_parts ls))"
proof (induction ls arbitrary: rt)
  case Nil
  then show ?case by simp
next
  case (Cons l ls)
  have "set (map fst (fold (runtime_services_step em) (l # ls) rt)) =
        set (map fst (runtime_services_step em l rt)) \<union>
        set (map (\<lambda>parts. parts ! 0) (List.map_filter unit_line_parts ls))"
    using Cons.IH[of "runtime_services_step em l rt"] by simp
  also have "\<dots> = set (map fst rt) \<union>
        set (map (\<lambda>parts. parts ! 0) (List.map_filter unit_line_parts (l # ls)))"
    unfolding runtime_services_step_keys by (cases "unit_line_parts l") auto
  finally show ?case .
qed

lemma build_runtime_services_distinct:
  "distinct (dict_keys (build_runtime_services em out))"
  by (simp add: build_runtime_services_def dict_keys_def fold_runtime_services_distinct)

lemma build_runtime_services_keyed:
  "p \<in> set (build_runtime_services em out) \<Longrightarrow>
   unit (snd p) = fst p \<and> enabled (snd p) = dict_get em (fst p) (ascii ''?'')"
  using fold_runtime_services_keyed[of "[]" em "splitlines out"]
  by (simp add: build_runtime_services_def)

lemma build_runtime_services_keys:
  "set (dict_keys (build_runtime_services em out)) = set (live_units out)"
  unfolding build_runtime_services_def dict_keys_def live_units_def
  by (simp only: fold_runtime_services_keys) simp

lemma placeholder_unit: "unit (placeholder us) = fst us"
  by (simp add: placeholder_def)

lemma placeholder_enabled: "enabled (placeholder us) = snd us"
  by (simp add: placeholder_def)

lemma merge_services_units:
  assumes "\<forall>p\<in>set rt. unit (snd p) = fst p"
  shows "map unit (merge_services em rt) =
         map fst rt @ map fst (filter (\<lambda>us. fst us \<notin> set (map fst rt)) em)"
proof -
  have "map unit (map snd rt) = map fst rt"
    using assms by (induction rt) simp_all
  moreover have "map unit (map placeholder xs) = map fst xs" for xs
    by (induction xs) (simp_all add: placeholder_unit)
  ultimately show ?thesis
    unfolding merge_services_def dict_values_def dict_keys_def by (simp only: map_append)
qed

lemma merge_services_distinct:
  assumes "\<forall>p\<in>set rt. unit (snd p) = fst p"
      and "distinct (map fst rt)" and "distinct (map fst em)"
  shows "distinct (map unit (merge_services em rt))"
proof -
  have "distinct (map fst (filter (\<lambda>us. fst us \<notin> set (map fst rt)) em))"
    using assms(3) by (rule distinct_map_filter)
  moreover have "set (map fst rt) \<inter> set (map fst (filter (\<lambda>us. fst us \<notin> set (map fst rt)) em)) = {}"
    by force
  ultimately show ?thesis
    unfolding merge_services_units[OF assms(1)] using assms(2) by (simp only: distinct_append)
qed

lemma merge_services_set:
  "set (merge_services em rt) =
   snd ` set rt \<union> placeholder ` {us \<in> set em. fst us \<notin> set (map fst rt)}"
  by (auto simp: merge_services_def dict_values_def dict_keys_def)

lemma dict_get_distinct:
  "distinct (map fst d) \<Longrightarrow> (k, v) \<in> set d \<Longrightarrow> dict_get d k dflt = v"
  by (simp add: dict_get_def)

lemma merge_services_enabled:
  assumes "\<forall>p\<in>set rt. unit (snd p) = fst p \<and> enabled (snd p) = dict_get em (fst p) (ascii ''?'')"
      and "distinct (map fst em)"
      and "r \<in> set (merge_services em rt)"
  shows "enabled r = dict_get em (unit r) (ascii ''?'')"
proof -
  from assms(3) consider p where "p \<in> set rt" "r = snd p"
    | us where "us \<in> set em" "r = placeholder us"
    unfolding merge_services_set by blast
  then show ?thesis
  proof cases
    case 1
    with assms(1) show ?thesis by simp
  next
    case 2
    then have "(fst us, snd us) \<in> set em" by simp
    with assms(2) have "dict_get em (fst us) (ascii ''?'') = snd us"
      by (rule dict_get_distinct)
    with 2 show ?thesis by (simp add: placeholder_unit placeholder_enabled)
  qed
qed

lemma get_services_list_ok:
  assumes "run_command run list_unit_files_cmd False = (code1, out1, err1)"
      and "run_command run list_units_cmd False = (code2, out2, err2)"
      and "code2 = 0"
  shows "get_services_list run =
         Inr (merge_services (build_enabled_map code1 out1)
               (build_runtime_services (build_enabled_map code1 out1) out2))"
  using assms by (simp add: get_services_list_def Let_def)

lemma get_services_list_failed:
  assumes "run_command run list_units_cmd False = (code2, out2, err2)"
      and "code2 \<noteq> 0"
  shows "get_services_list run = Inl (RuntimeError (ascii ''Failed to list services:'' @ err2))"
  using assms by (simp add: get_services_list_def split: prod.splits)

lemma collected_distinct:
  "distinct (map unit (merge_services (build_enabled_map code out1)
      (build_runtime_services (build_enabled_map code out1) out2)))"
proof (rule merge_services_distinct)
  show "\<forall>p\<in>set (build_runtime_services (build_enabled_map code out1) out2). unit (snd p) = fst p"
    using build_runtime_services_keyed by blast
  show "distinct (map fst (build_runtime_services (build_enabled_map code out1) out2))"
    using build_runtime_services_distinct by (simp add: dict_keys_def)
  show "distinct (map fst (build_enabled_map code out1))"
    by (rule build_enabled_map_distinct)
qed

lemma collected_enabled:
  assumes "r \<in> set (merge_services (build_enabled_map code out1)
      (build_runtime_services (build_enabled_map code out1) out2))"
  shows "enabled r = dict_get (build_enabled_map code out1) (unit r) (ascii ''?'')"
proof (rule merge_services_enabled)
  show "\<forall>p\<in>set (build_runtime_services (build_enabled_map code out1) out2).
     unit (snd p) = fst p \<and> enabled (snd p) = dict_get (build_enabled_map code out1) (fst p) (ascii ''?'')"
    using build_runtime_services_keyed by blast
  show "distinct (map fst (build_enabled_map code out1))"
    by (rule build_enabled_map_distinct)
  show "r \<in> set (merge_services (build_enabled_map code out1)
      (build_runtime_services (build_enabled_map code out1) out2))"
    by (rule assms)
qed

lemma collected_units:
  "set (map unit (merge_services em (build_runtime_services em out2))) =
   set (live_units out2) \<union> set (dict_keys em)"
proof -
  have k: "\<forall>p\<in>set (build_runtime_services em out2). unit (snd p) = fst p"
    using build_runtime_services_keyed by blast
  have "set (map fst (build_runtime_services em out2)) = set (live_units out2)"
    using build_runtime_services_keys by (simp add: dict_keys_def)
  then show ?thesis
    unfolding merge_services_units[OF k] by (auto simp: dict_keys_def)
qed

lemma unit_line_parts_None_iff:
  "unit_line_parts line = None \<longleftrightarrow> length (tokens_after_bullet line) < 5"
  using split_ws_rstrip[of line]
  by (auto simp: unit_line_parts_def tokens_after_bullet_def Let_def split_ws_Nil)

lemma fold_enabled_map_other:
  "\<forall>l\<in>set ls. length (split_ws l) < 2 \<or> split_ws l ! 0 \<noteq> u \<Longrightarrow>
   map_of (fold enabled_map_step ls m) u = map_of m u"
proof (induction ls arbitrary: m)
  case Nil
  then show ?case by simp
next
  case (Cons l ls)
  have "map_of (enabled_map_step l m) u = map_of m u"
  proof (cases l m rule: enabled_map_step_cases)
    case 1
    then show ?thesis by simp
  next
    case (2 u' s rest)
    with Cons.prems have "u' \<noteq> u" by auto
    with 2(2) show ?thesis by (simp add: dict_set_def update_conv')
  qed
  moreover have "map_of (fold enabled_map_step ls (enabled_map_step l m)) u =
                 map_of (enabled_map_step l m) u"
    using Cons.prems by (intro Cons.IH) simp
  ultimately show ?case by simp
qed

text \<open>
  The parser of the live listing and the enablement mapping, stated from the text of the
  two outputs: their lines and the tokens of each line.
\<close>

lemma unit_line_parts_eq:
  "unit_line_parts line =
     (if length (tokens_after_bullet line) < 5 then None else Some (tokens_after_bullet line))"
  using split_ws_rstrip[of line]
  by (auto simp: unit_line_parts_def tokens_after_bullet_def Let_def split_ws_Nil)

lemma live_units_text:
  "set (live_units out) =
     {tokens_after_bullet line ! 0 | line.
        line \<in> set (splitlines out) \<and> 5 \<le> length (tokens_after_bullet line)}"
  by (auto simp: live_units_def List.map_filter_def unit_line_parts_eq image_iff
      split: if_splits)

lemma live_units_named:
  assumes "line \<in> set (splitlines out)" and "tokens_after_bullet line = u # rest"
      and "4 \<le> length rest"
  shows "u \<in> set (live_units out)"
proof -
  have "5 \<le> length (tokens_after_bullet line)" "tokens_after_bullet line ! 0 = u"
    using assms(2,3) by simp_all
  with assms(1) show ?thesis unfolding live_units_text by blast
qed


lemma build_enabled_map_last:
  assumes "code = 0" and "splitlines out = before @ line # after"
      and "split_ws line = unit_file # state # rest"
      and "\<forall>l\<in>set after. length (split_ws l) < 2 \<or> split_ws l ! 0 \<noteq> unit_file"
  shows "map_of (build_enabled_map code out) unit_file = Some state"
proof -
  define m0 where "m0 = fold enabled_map_step before []"
  have "build_enabled_map code out = fold enabled_map_step after (enabled_map_step line m0)"
    using assms(1,2) by (simp add: build_enabled_map_def m0_def)
  also have "enabled_map_step line m0 = dict_set unit_file state m0"
    using assms(3) by (rule enabled_map_step_set)
  finally have "map_of (build_enabled_map code out) unit_file =
                map_of (dict_set unit_file state m0) unit_file"
    using assms(4) by (simp add: fold_enabled_map_other)
  then show ?thesis
    by (simp add: dict_set_def update_conv')
qed

lemma build_enabled_map_absent:
  assumes "code \<noteq> 0 \<or>
           (\<forall>l\<in>set (splitlines out). length (split_ws l) < 2 \<or> split_ws l ! 0 \<noteq> unit_file)"
  shows "map_of (build_enabled_map code out) unit_file = None"
proof (cases "code = 0")
  case True
  with assms have "\<forall>l\<in>set (splitlines out). length (split_ws l) < 2 \<or> split_ws l ! 0 \<noteq> unit_file"
    by simp
  then have "map_of (fold enabled_map_step (splitlines out) []) unit_file = map_of [] unit_file"
    by (rule fold_enabled_map_other)
  with True show ?thesis by (simp add: build_enabled_map_def)
next
  case False
  then show ?thesis by (simp add: build_enabled_map_def)
qed

lemma basename_systemctl: "basename (ascii ''/usr/bin/systemctl'') = ascii ''systemctl''"
  by (simp add: basename_def ascii_def)

text \<open>Every record the collector returns names a unit: no \<open>unit\<close> field is empty.\<close>

lemma collected_units_nonempty:
  assumes "get_services_list run = Inr services" and "r \<in> set services"
  shows "unit r \<noteq> []"
proof -
  obtain code1 out1 err1 where f: "run_command run list_unit_files_cmd False = (code1, out1, err1)"
    by (cases "run_command run list_unit_files_cmd False") auto
  obtain code2 out2 err2 where u: "run_command run list_units_cmd False = (code2, out2, err2)"
    by (cases "run_command run list_units_cmd False") auto
  have ok: "code2 = 0"
    using assms(1) get_services_list_failed[OF u] by auto
  define em where "em = build_enabled_map code1 out1"
  have "services = merge_services em (build_runtime_services em out2)"
    using assms(1) get_services_list_ok[OF f u ok] by (simp add: em_def)
  then have "unit r \<in> set (live_units out2) \<union> set (dict_keys em)"
    using assms(2) collected_units[of em out2] by auto
  moreover have "[] \<notin> set (dict_keys em)"
    unfolding em_def by (rule build_enabled_map_keys)
  moreover have "[] \<notin> set (live_units out2)"
  proof
    assume "[] \<in> set (live_units out2)"
    then obtain line parts where "unit_line_parts line = Some parts" "parts ! 0 = []"
      by (auto simp: live_units_def List.map_filter_def)
    moreover from this have "5 \<le> length parts \<and> set parts \<subseteq> set (split_ws line)"
      using unit_line_parts_Some by blast
    ultimately have "[] \<in> set (split_ws line)"
      by (metis (no_types, lifting) nth_mem subsetD less_le_trans zero_less_numeral)
    then show False using split_ws_nonempty by blast
  qed
  ultimately show ?thesis by auto
qed

section \<open>The example environment, evaluated\<close>

lemmas eval_defs = ascii_def split_ws_def isspace_def is_linebreak_def splitlines_def
  rstrip_def lstrip_def strip_def bullet_def unit_line_parts_def Let_def live_units_def
  enabled_map_step_def build_enabled_map_def dict_set_def

lemma example_run_files:
  "run_command example_run list_unit_files_cmd False = (0, example_files_out, [])"
  by (simp add: run_command_def example_run_def full_cmd_def)

lemma example_run_units:
  "run_command example_run list_units_cmd False = (0, example_units_out, [])"
  by (simp add: run_command_def example_run_def full_cmd_def list_units_cmd_def
      list_unit_files_cmd_def ascii_def)

lemma example_live_units: "live_units example_units_out = [ascii ''ssh.service'']"
  by (simp add: example_units_out_def eval_defs)

lemma degraded_run_files:
  "run_command degraded_run list_unit_files_cmd False = (1, [], ascii ''Failed to connect to bus'')"
  by (simp add: run_command_def degraded_run_def full_cmd_def list_units_cmd_def
      list_unit_files_cmd_def ascii_def)

lemma degraded_run_units:
  "run_command degraded_run list_units_cmd False = (0, example_units_out, [])"
  by (simp add: run_command_def degraded_run_def full_cmd_def)

lemma failing_run_files:
  "run_command failing_run list_unit_files_cmd False = (0, example_files_out, [])"
  by (simp add: run_command_def failing_run_def full_cmd_def)

lemma failing_run_units:
  "run_command failing_run list_units_cmd False = (1, [], ascii ''Failed to connect to bus'')"
  by (simp add: run_command_def failing_run_def full_cmd_def list_units_cmd_def
      list_unit_files_cmd_def ascii_def)

lemma duplicate_files_lines:
  "splitlines duplicate_files_out =
     [ascii ''ssh.service disabled''] @ ascii ''ssh.service enabled enabled'' # [ascii ''cron.service'']"
  by (simp add: duplicate_files_out_def ascii_def splitlines_def is_linebreak_def)

lemma example_units_lines: "splitlines example_units_out = [example_units_out]"
  by (simp add: example_units_out_def ascii_def splitlines_def is_linebreak_def)

lemma example_units_tokens:
  "tokens_after_bullet example_units_out =
     ascii ''ssh.service'' #
     map ascii [''loaded'', ''active'', ''running'', ''OpenBSD'', ''Secure'', ''Shell'', ''server'']"
  by (simp add: example_units_out_def tokens_after_bullet_def ascii_def split_ws_def
      isspace_def bullet_def)

lemma example_files_lines:
  "splitlines example_files_out =
     [] @ ascii ''ssh.service enabled enabled'' # [ascii ''cron.service disabled enabled'']"
  by (simp add: example_files_out_def ascii_def splitlines_def is_linebreak_def)


lemma ssh_line_tokens:
  "split_ws (ascii ''ssh.service enabled enabled'') =
     ascii ''ssh.service'' # ascii ''enabled'' # [ascii ''enabled'']"
  by (simp add: ascii_def split_ws_def isspace_def)

lemma cron_line_tokens:
  "split_ws (ascii ''cron.service disabled enabled'') =
     ascii ''cron.service'' # ascii ''disabled'' # [ascii ''enabled'']"
  by (simp add: ascii_def split_ws_def isspace_def)

section \<open>The command runner: dispatch and failures\<close>

text \<open>
  Claim C5, as amended. For every command list, \<open>run_command\<close> with the elevation flag
  set hands \<open>subprocess.run\<close> the vector \<open>pkexec\<close>, \<open>/usr/bin/systemctl\<close> and then the
  original arguments \<open>command[1:]\<close>, whatever the executable of the command was, and
  returns what the runner makes of that invocation. The elevated vector runs the same
  logical command as the command list exactly when the executable of the command is
  \<open>systemctl\<close>, as it is in every caller: then elevation changes how the command is
  dispatched, not what it does.
\<close>

theorem run_command_elevated_dispatch:
  "full_cmd command True = ascii ''pkexec'' # ascii ''/usr/bin/systemctl'' # drop 1 command
   \<and> run_command run command True =
       (case run (ascii ''pkexec'' # ascii ''/usr/bin/systemctl'' # drop 1 command) of
          Inr proc \<Rightarrow> (returncode proc, stdout proc, stderr proc)
        | Inl (FileNotFoundError ex) \<Rightarrow> (1, [], ascii ''Command not found: '' @ ex)
        | Inl (OtherException ex) \<Rightarrow> (1, [], ascii ''Unexpected error: '' @ ex))
   \<and> (same_logical_command command (full_cmd command True) \<longleftrightarrow>
        (\<exists>exe args. command = exe # args \<and> basename exe = ascii ''systemctl''))"
proof -
  have "same_logical_command command (full_cmd command True) \<longleftrightarrow>
        (\<exists>exe args. command = exe # args \<and> basename exe = ascii ''systemctl'')"
    by (cases command)
       (auto simp: same_logical_command_def full_cmd_def basename_systemctl)
  then show ?thesis
    by (simp add: full_cmd_def run_command_def)
qed

theorem run_command_elevated_dispatch_witness:
  "run_command pkexec_run [ascii ''systemctl'', ascii ''restart'', ascii ''ssh.service''] True =
     (0, [], [])
   \<and> same_logical_command [ascii ''systemctl'', ascii ''restart'', ascii ''ssh.service'']
       (full_cmd [ascii ''systemctl'', ascii ''restart'', ascii ''ssh.service''] True)"
proof -
  have b: "basename (ascii ''systemctl'') = ascii ''systemctl''"
    by (simp add: basename_def ascii_def)
  note w = run_command_elevated_dispatch
      [of "[ascii ''systemctl'', ascii ''restart'', ascii ''ssh.service'']" pkexec_run]
  have "run_command pkexec_run [ascii ''systemctl'', ascii ''restart'', ascii ''ssh.service'']
          True = (0, [], [])"
    using w by (simp add: pkexec_run_def)
  moreover have "same_logical_command
       [ascii ''systemctl'', ascii ''restart'', ascii ''ssh.service'']
       (full_cmd [ascii ''systemctl'', ascii ''restart'', ascii ''ssh.service''] True)"
    using w b by blast
  ultimately show ?thesis by blast
qed

text \<open>
  Claim C5 as it is written, for every command list, fails for a command whose
  executable is not the service manager: the elevated dispatch of \<open>ls -l /tmp\<close> runs
  \<open>/usr/bin/systemctl -l /tmp\<close> behind the wrapper, another program with the arguments
  of the first.
\<close>

theorem elevated_other_executable_counterexample:
  "full_cmd [ascii ''ls'', ascii ''-l'', ascii ''/tmp''] True =
     [ascii ''pkexec'', ascii ''/usr/bin/systemctl'', ascii ''-l'', ascii ''/tmp'']
   \<and> \<not> same_logical_command [ascii ''ls'', ascii ''-l'', ascii ''/tmp'']
         (full_cmd [ascii ''ls'', ascii ''-l'', ascii ''/tmp''] True)"
  by (simp add: full_cmd_def same_logical_command_def basename_def ascii_def)

text \<open>
  Claim C6. \<open>run_command\<close> returns a triple whatever \<open>subprocess.run\<close> does with the
  dispatched vector, for every command list and either value of the flag: when the
  executable is not found, exit code 1, an empty standard output and the message
  \<open>Command not found:\<close> followed by the text of the exception; when the invocation fails in
  any other way, exit code 1, an empty standard output and \<open>Unexpected error:\<close> followed
  by the text of the exception; when the process completes, its return code and its two
  captured texts.
\<close>

theorem run_command_never_raises:
  "(run (full_cmd command require_root) = Inl (FileNotFoundError ex) \<longrightarrow>
      run_command run command require_root = (1, [], ascii ''Command not found: '' @ ex))
   \<and> (run (full_cmd command require_root) = Inl (OtherException ex) \<longrightarrow>
      run_command run command require_root = (1, [], ascii ''Unexpected error: '' @ ex))
   \<and> (run (full_cmd command require_root) = Inr proc \<longrightarrow>
      run_command run command require_root = (returncode proc, stdout proc, stderr proc))"
  by (simp add: run_command_def)

theorem run_command_never_raises_witness:
  "run_command missing_run [ascii ''systemctl'', ascii ''start'', ascii ''ssh.service''] True =
     (1, [], ascii ''Command not found: No such file or directory'')
   \<and> run_command crashing_run [] False =
     (1, [], ascii ''Unexpected error: embedded null byte'')
   \<and> run_command example_run list_units_cmd False = (0, example_units_out, [])"
proof -
  have "run_command missing_run [ascii ''systemctl'', ascii ''start'', ascii ''ssh.service''] True =
     (1, [], ascii ''Command not found: '' @ ascii ''No such file or directory'')"
    using run_command_never_raises
      [of missing_run "[ascii ''systemctl'', ascii ''start'', ascii ''ssh.service'']" True
          "ascii ''No such file or directory''"]
    by (simp add: missing_run_def)
  moreover have "run_command crashing_run [] False =
     (1, [], ascii ''Unexpected error: '' @ ascii ''embedded null byte'')"
    using run_command_never_raises
      [of crashing_run "[]" False "ascii ''embedded null byte''"]
    by (simp add: crashing_run_def)
  moreover have "example_run (full_cmd list_units_cmd False) =
      Inr \<lparr>returncode = 0, stdout = example_units_out, stderr = []\<rparr>"
    by (simp add: example_run_def full_cmd_def list_units_cmd_def list_unit_files_cmd_def
        ascii_def)
  then have "run_command example_run list_units_cmd False = (0, example_units_out, [])"
    using run_command_never_raises
      [of example_run list_units_cmd False _
          "\<lparr>returncode = 0, stdout = example_units_out, stderr = []\<rparr>"]
    by simp
  ultimately show ?thesis by (simp add: ascii_def)
qed

section \<open>The collector: the merged list\<close>

text \<open>
  The merged list in terms of the two dictionaries: a key of the dictionary of live units
  has exactly one record, and so has a key of the enablement mapping that is no key of
  the dictionary of live units, the placeholder.
\<close>

lemma parsed_unit_listed_once:
  assumes files: "run_command run list_unit_files_cmd False = (code1, out1, err1)"
      and units: "run_command run list_units_cmd False = (code2, out2, err2)"
      and ok: "code2 = 0"
      and u: "u \<in> set (live_units out2)"
  shows "\<exists>services r. get_services_list run = Inr services
           \<and> distinct (map unit services)
           \<and> filter (\<lambda>r'. unit r' = u) services = [r]
           \<and> enabled r = (case map_of (build_enabled_map code1 out1) u of
                             Some state \<Rightarrow> state | None \<Rightarrow> ascii ''?'')"
proof -
  define em where "em = build_enabled_map code1 out1"
  define services where "services = merge_services em (build_runtime_services em out2)"
  have run: "get_services_list run = Inr services"
    unfolding services_def em_def using files units ok by (rule get_services_list_ok)
  have d: "distinct (map unit services)"
    unfolding services_def em_def by (rule collected_distinct)
  have "u \<in> set (map unit services)"
    unfolding services_def collected_units using u by simp
  then obtain r where r: "r \<in> set services" "unit r = u" by auto
  from d r(1) have "filter (\<lambda>r'. unit r' = unit r) services = [r]"
    by (rule distinct_filter_key)
  moreover have "enabled r = dict_get em (unit r) (ascii ''?'')"
    using r(1) unfolding services_def em_def by (rule collected_enabled)
  ultimately show ?thesis
    using run d r(2) unfolding em_def dict_get_def
    by (intro exI[of _ services] exI[of _ r]) (simp split: option.splits)
qed


text \<open>
  Claim C1, as amended. Whenever the live-units query exits with code 0, every unit named
  on a line of the live-units output that has at least five tokens once the leading
  bullet, if any, is dropped (the unit is the first of them) is the \<open>unit\<close> of exactly
  one record of the list \<open>get_services_list\<close> returns, and no two records of the list
  have the same \<open>unit\<close>. The \<open>enabled\<close> field of that record is the state the enablement
  mapping holds for the unit and \<open>?\<close> when it holds none: the second token of the last
  line of the enablement output that has at least two tokens and the unit as its first,
  when that query exits with code 0 and there is such a line, and \<open>?\<close> otherwise.
\<close>

theorem live_unit_listed_once:
  assumes files: "run_command run list_unit_files_cmd False = (code1, out1, err1)"
      and units: "run_command run list_units_cmd False = (code2, out2, err2)"
      and ok: "code2 = 0"
      and line: "line \<in> set (splitlines out2)"
      and toks: "tokens_after_bullet line = u # rest" "4 \<le> length rest"
  shows "\<exists>services r. get_services_list run = Inr services
           \<and> distinct (map unit services)
           \<and> filter (\<lambda>r'. unit r' = u) services = [r]
           \<and> enabled r = (case map_of (build_enabled_map code1 out1) u of
                             Some state \<Rightarrow> state | None \<Rightarrow> ascii ''?'')
           \<and> (code1 = 0 \<and> splitlines out1 = before @ fline # after
                \<and> split_ws fline = u # state # frest
                \<and> (\<forall>l\<in>set after. length (split_ws l) < 2 \<or> split_ws l ! 0 \<noteq> u) \<longrightarrow>
                enabled r = state)
           \<and> (code1 \<noteq> 0
                \<or> (\<forall>l\<in>set (splitlines out1). length (split_ws l) < 2 \<or> split_ws l ! 0 \<noteq> u) \<longrightarrow>
                enabled r = ascii ''?'')"
proof -
  have "u \<in> set (live_units out2)"
    using line toks by (rule live_units_named)
  with files units ok obtain services r where
    s: "get_services_list run = Inr services" "distinct (map unit services)"
       "filter (\<lambda>r'. unit r' = u) services = [r]"
    and e: "enabled r = (case map_of (build_enabled_map code1 out1) u of
                             Some state \<Rightarrow> state | None \<Rightarrow> ascii ''?'')"
    using parsed_unit_listed_once[of run code1 out1 err1 code2 out2 err2 u] by blast
  have present: "enabled r = state"
    if "code1 = 0 \<and> splitlines out1 = before @ fline # after
        \<and> split_ws fline = u # state # frest
        \<and> (\<forall>l\<in>set after. length (split_ws l) < 2 \<or> split_ws l ! 0 \<noteq> u)"
  proof -
    have "map_of (build_enabled_map code1 out1) u = Some state"
      using that by (intro build_enabled_map_last[of code1 out1 before fline after u state frest]) simp_all
    with e show ?thesis by simp
  qed
  have absent: "enabled r = ascii ''?''"
    if "code1 \<noteq> 0
        \<or> (\<forall>l\<in>set (splitlines out1). length (split_ws l) < 2 \<or> split_ws l ! 0 \<noteq> u)"
  proof -
    have "map_of (build_enabled_map code1 out1) u = None"
      using that by (rule build_enabled_map_absent)
    with e show ?thesis by simp
  qed
  show ?thesis
    using s e present absent by (intro exI[of _ services] exI[of _ r]) blast
qed

theorem live_unit_listed_once_witness:
  "(\<exists>services r. get_services_list example_run = Inr services
         \<and> distinct (map unit services)
         \<and> filter (\<lambda>r'. unit r' = ascii ''ssh.service'') services = [r]
         \<and> enabled r = ascii ''enabled'')
   \<and> (\<exists>services r. get_services_list degraded_run = Inr services
         \<and> filter (\<lambda>r'. unit r' = ascii ''ssh.service'') services = [r]
         \<and> enabled r = ascii ''?'')"
proof -
  have l: "example_units_out \<in> set (splitlines example_units_out)"
    by (simp add: example_units_lines)
  have n: "4 \<le> length (map ascii [''loaded'', ''active'', ''running'', ''OpenBSD'', ''Secure'', ''Shell'', ''server''])"
    by simp
  have ne: "ascii ''cron.service'' \<noteq> ascii ''ssh.service''"
    by (simp add: ascii_def)
  have a: "\<forall>l\<in>set [ascii ''cron.service disabled enabled''].
             length (split_ws l) < 2 \<or> split_ws l ! 0 \<noteq> ascii ''ssh.service''"
    by (simp add: cron_line_tokens ne)
  have "\<exists>services r. get_services_list example_run = Inr services
         \<and> distinct (map unit services)
         \<and> filter (\<lambda>r'. unit r' = ascii ''ssh.service'') services = [r]
         \<and> enabled r = ascii ''enabled''"
    using live_unit_listed_once[OF example_run_files example_run_units refl l
        example_units_tokens n, of "[]" "ascii ''ssh.service enabled enabled''"
        "[ascii ''cron.service disabled enabled'']" "ascii ''enabled''" "[ascii ''enabled'']"]
      example_files_lines ssh_line_tokens a
    by blast
  moreover have "\<exists>services r. get_services_list degraded_run = Inr services
         \<and> filter (\<lambda>r'. unit r' = ascii ''ssh.service'') services = [r]
         \<and> enabled r = ascii ''?''"
    using live_unit_listed_once[OF degraded_run_files degraded_run_units refl l
        example_units_tokens n, of "[]" "[]" "[]" "[]" "[]"]
    by auto
  ultimately show ?thesis by blast
qed

text \<open>
  Claim C1 as it is written, for every unit the live-units output names, fails on a line
  of fewer than five tokens: the loop skips the line, so a live listing whose one line
  is \<open>ssh.service loaded active running\<close> gives an empty list, and the unit it names is
  the \<open>unit\<close> of no record.
\<close>

theorem short_live_line_counterexample:
  "run_command short_live_run list_units_cmd False =
     (0, ascii ''ssh.service loaded active running'', [])
   \<and> splitlines (ascii ''ssh.service loaded active running'') =
       [ascii ''ssh.service loaded active running'']
   \<and> split_ws (ascii ''ssh.service loaded active running'') =
       [ascii ''ssh.service'', ascii ''loaded'', ascii ''active'', ascii ''running'']
   \<and> get_services_list short_live_run = Inr []"
proof -
  have a: "run_command short_live_run list_units_cmd False =
     (0, ascii ''ssh.service loaded active running'', [])"
    by (simp add: run_command_def short_live_run_def full_cmd_def)
  have b: "run_command short_live_run list_unit_files_cmd False = (0, [], [])"
    by (simp add: run_command_def short_live_run_def full_cmd_def list_units_cmd_def
        list_unit_files_cmd_def ascii_def)
  have c: "splitlines (ascii ''ssh.service loaded active running'') =
       [ascii ''ssh.service loaded active running'']"
    by (simp add: ascii_def splitlines_def is_linebreak_def)
  have d: "split_ws (ascii ''ssh.service loaded active running'') =
       [ascii ''ssh.service'', ascii ''loaded'', ascii ''active'', ascii ''running'']"
    by (simp add: ascii_def split_ws_def isspace_def)
  have t: "length (tokens_after_bullet (ascii ''ssh.service loaded active running'')) = 4"
    by (simp add: tokens_after_bullet_def ascii_def split_ws_def isspace_def bullet_def)
  have e: "unit_line_parts (ascii ''ssh.service loaded active running'') = None"
    by (simp add: unit_line_parts_eq t)
  have "get_services_list short_live_run = Inr []"
    by (simp add: get_services_list_def a b build_enabled_map_def splitlines_def
        build_runtime_services_def c[unfolded splitlines_def] runtime_services_step_def e
        merge_services_def dict_values_def)
  with a c d show ?thesis by simp
qed



text \<open>
  Claim C7. When the enablement query exits with a code other than 0 and the live-units
  query with 0, the enablement mapping is empty and the collection succeeds: the returned
  records are those of the units the live listing names, each with \<open>enabled\<close> equal to
  \<open>?\<close>. When the live-units query exits with a code other than 0, \<open>get_services_list\<close>
  raises \<open>RuntimeError\<close> with the message \<open>Failed to list services:\<close> followed by the
  captured standard error as it is, and returns no list.
\<close>

theorem listing_failures:
  assumes files: "run_command run list_unit_files_cmd False = (code1, out1, err1)"
      and units: "run_command run list_units_cmd False = (code2, out2, err2)"
  shows "(code1 \<noteq> 0 \<and> code2 = 0 \<longrightarrow>
            build_enabled_map code1 out1 = []
          \<and> (\<exists>services. get_services_list run = Inr services
                \<and> set (map unit services) = set (live_units out2)
                \<and> (\<forall>r\<in>set services. enabled r = ascii ''?'')))
       \<and> (code2 \<noteq> 0 \<longrightarrow>
            get_services_list run =
              Inl (RuntimeError (ascii ''Failed to list services:'' @ err2)))"
proof (intro conjI impI)
  assume a: "code1 \<noteq> 0 \<and> code2 = 0"
  then show em: "build_enabled_map code1 out1 = []"
    by (simp add: build_enabled_map_def)
  define services where "services = merge_services [] (build_runtime_services [] out2)"
  have run: "get_services_list run = Inr services"
    using get_services_list_ok[OF files units] a by (simp add: services_def em)
  have "set (map unit services) = set (live_units out2)"
    unfolding services_def collected_units by (simp add: dict_keys_def)
  moreover have "enabled r = ascii ''?''" if "r \<in> set services" for r
  proof -
    have "r \<in> set (merge_services (build_enabled_map code1 out1)
                 (build_runtime_services (build_enabled_map code1 out1) out2))"
      using that by (simp add: services_def em)
    then have "enabled r = dict_get (build_enabled_map code1 out1) (unit r) (ascii ''?'')"
      by (rule collected_enabled)
    then show ?thesis by (simp add: em dict_get_def)
  qed
  ultimately show "\<exists>services. get_services_list run = Inr services
                \<and> set (map unit services) = set (live_units out2)
                \<and> (\<forall>r\<in>set services. enabled r = ascii ''?'')"
    using run by blast
next
  assume "code2 \<noteq> 0"
  with units show "get_services_list run =
              Inl (RuntimeError (ascii ''Failed to list services:'' @ err2))"
    by (rule get_services_list_failed)
qed

theorem listing_failures_witness:
  "(\<exists>services. get_services_list degraded_run = Inr services
       \<and> set (map unit services) = {ascii ''ssh.service''}
       \<and> list_all (\<lambda>r. enabled r = ascii ''?'') services)
   \<and> get_services_list failing_run =
       Inl (RuntimeError (ascii ''Failed to list services:Failed to connect to bus''))"
proof -
  have "(1::int) \<noteq> 0 \<and> (0::int) = 0" by simp
  then have "\<exists>services. get_services_list degraded_run = Inr services
       \<and> set (map unit services) = set (live_units example_units_out)
       \<and> (\<forall>r\<in>set services. enabled r = ascii ''?'')"
    using listing_failures[OF degraded_run_files degraded_run_units] by blast
  then have "\<exists>services. get_services_list degraded_run = Inr services
       \<and> set (map unit services) = {ascii ''ssh.service''}
       \<and> list_all (\<lambda>r. enabled r = ascii ''?'') services"
    by (simp add: example_live_units list_all_iff)
  moreover have "get_services_list failing_run =
       Inl (RuntimeError (ascii ''Failed to list services:'' @ ascii ''Failed to connect to bus''))"
    using listing_failures[OF failing_run_files failing_run_units] by simp
  ultimately show ?thesis by (simp add: ascii_def)
qed

section \<open>The collector: one line of the live listing\<close>

text \<open>
  Claim C8, as amended. A line whose tokens are the bullet followed by at least five
  fields, of which the first is not the bullet again, is parsed into the same record as
  a line whose tokens are those fields alone, and the loop body leaves the same
  dictionary for both.
\<close>

theorem bullet_line_parses_alike:
  assumes "split_ws line = bullet # toks"
      and "split_ws line' = toks"
      and "5 \<le> length toks"
      and "toks ! 0 \<noteq> bullet"
  shows "parsed_record em line = parsed_record em line'
       \<and> parsed_record em line = Some (unit_record em toks)
       \<and> runtime_services_step em line rt = runtime_services_step em line' rt"
proof -
  have a: "unit_line_parts line = Some toks"
    using assms(1,3) by (rule unit_line_parts_bullet)
  have b: "unit_line_parts line' = Some toks"
    using assms(2,3,4) by (rule unit_line_parts_tokens)
  show ?thesis
    by (simp add: parsed_record_def runtime_services_step_def a b)
qed

theorem bullet_line_parses_alike_witness:
  "parsed_record [] (bullet @ ascii '' ssh.service loaded failed failed Secure Shell'') =
     parsed_record [] (ascii ''ssh.service loaded failed failed Secure Shell'')
   \<and> parsed_record [] (bullet @ ascii '' ssh.service loaded failed failed Secure Shell'') =
     Some \<lparr>unit = ascii ''ssh.service'', load = ascii ''loaded'', active = ascii ''failed'',
            sub = ascii ''failed'', description = ascii ''Secure Shell'',
            enabled = ascii ''?''\<rparr>"
proof -
  have t: "split_ws (ascii ''ssh.service loaded failed failed Secure Shell'') =
           map ascii [''ssh.service'', ''loaded'', ''failed'', ''failed'', ''Secure'', ''Shell'']"
    by (simp add: ascii_def split_ws_def isspace_def)
  have tb: "split_ws (bullet @ ascii '' ssh.service loaded failed failed Secure Shell'') =
           bullet # map ascii [''ssh.service'', ''loaded'', ''failed'', ''failed'', ''Secure'', ''Shell'']"
    by (simp add: ascii_def split_ws_def isspace_def bullet_def)
  have l: "5 \<le> length (map ascii [''ssh.service'', ''loaded'', ''failed'', ''failed'', ''Secure'', ''Shell''])"
    by simp
  have n: "map ascii [''ssh.service'', ''loaded'', ''failed'', ''failed'', ''Secure'', ''Shell''] ! 0 \<noteq> bullet"
    by (simp add: ascii_def bullet_def)
  have r: "unit_record [] (map ascii [''ssh.service'', ''loaded'', ''failed'', ''failed'', ''Secure'', ''Shell'']) =
      \<lparr>unit = ascii ''ssh.service'', load = ascii ''loaded'', active = ascii ''failed'',
            sub = ascii ''failed'', description = ascii ''Secure Shell'',
            enabled = ascii ''?''\<rparr>"
    by (simp add: unit_record_def dict_get_def ascii_def)
  show ?thesis
    using bullet_line_parses_alike[OF tb t l n, of "[]" "[]"] unfolding r by blast
qed

text \<open>
  Claim C8 as it is written fails where the first field after the bullet is a bullet
  too: the loop drops one bullet only, so the line with two bullets has the second bullet
  as its \<open>unit\<close>, while the same line without its leading bullet has the bullet dropped
  and the next field as its \<open>unit\<close>.
\<close>

theorem doubled_bullet_counterexample:
  "split_ws (bullet @ ascii '' '' @ bullet @ ascii '' ssh.service loaded failed failed SSH'') =
     bullet # split_ws (bullet @ ascii '' ssh.service loaded failed failed SSH'')
   \<and> 5 \<le> length (split_ws (bullet @ ascii '' ssh.service loaded failed failed SSH''))
   \<and> parsed_record []
        (bullet @ ascii '' '' @ bullet @ ascii '' ssh.service loaded failed failed SSH'') =
      Some \<lparr>unit = bullet, load = ascii ''ssh.service'', active = ascii ''loaded'',
             sub = ascii ''failed'', description = ascii ''failed SSH'',
             enabled = ascii ''?''\<rparr>
   \<and> parsed_record [] (bullet @ ascii '' ssh.service loaded failed failed SSH'') =
      Some \<lparr>unit = ascii ''ssh.service'', load = ascii ''loaded'', active = ascii ''failed'',
             sub = ascii ''failed'', description = ascii ''SSH'', enabled = ascii ''?''\<rparr>
   \<and> parsed_record []
        (bullet @ ascii '' '' @ bullet @ ascii '' ssh.service loaded failed failed SSH'') \<noteq>
      parsed_record [] (bullet @ ascii '' ssh.service loaded failed failed SSH'')"
  by (simp add: parsed_record_def unit_record_def dict_get_def eval_defs)

text \<open>
  Claim C9. A line of the live listing that has fewer than five tokens once the leading
  bullet, if any, is dropped (a blank line has none) is skipped: the loop body returns
  the dictionary it was given, so the loop over the lines with that line among them
  builds the dictionary it builds without the line, and the merged list is the same.
\<close>

theorem short_line_skipped:
  assumes "length (tokens_after_bullet line) < 5"
  shows "unit_line_parts line = None
       \<and> parsed_record em line = None
       \<and> runtime_services_step em line rt = rt
       \<and> fold (runtime_services_step em) (before @ line # after) rt =
           fold (runtime_services_step em) (before @ after) rt
       \<and> merge_services em (fold (runtime_services_step em) (before @ line # after) []) =
           merge_services em (fold (runtime_services_step em) (before @ after) [])
       \<and> (splitlines out = before @ line # after \<longrightarrow>
            build_runtime_services em out =
              fold (runtime_services_step em) (before @ after) [])"
proof -
  have n: "unit_line_parts line = None"
    using assms by (simp add: unit_line_parts_None_iff)
  then have s: "runtime_services_step em line rt' = rt'" for rt'
    by (rule runtime_services_step_skip)
  show ?thesis by (simp add: n s parsed_record_def build_runtime_services_def)
qed

theorem short_line_skipped_witness:
  "length (tokens_after_bullet (ascii ''   '')) < 5
   \<and> length (tokens_after_bullet (bullet @ ascii '' ssh.service loaded failed failed'')) < 5
   \<and> runtime_services_step [] (ascii ''   '') [] = []
   \<and> parsed_record [] (bullet @ ascii '' ssh.service loaded failed failed'') = None
   \<and> build_runtime_services []
        (example_units_out @ [10] @ bullet @ ascii '' ssh.service loaded failed failed'') =
      build_runtime_services [] example_units_out"
proof -
  have a: "length (tokens_after_bullet (ascii ''   '')) < 5"
    by (simp add: tokens_after_bullet_def ascii_def split_ws_def isspace_def)
  have b: "length (tokens_after_bullet (bullet @ ascii '' ssh.service loaded failed failed'')) < 5"
    by (simp add: tokens_after_bullet_def ascii_def split_ws_def isspace_def bullet_def)
  have l: "splitlines
        (example_units_out @ [10] @ bullet @ ascii '' ssh.service loaded failed failed'') =
      [example_units_out] @ (bullet @ ascii '' ssh.service loaded failed failed'') # []"
    by (simp add: example_units_out_def ascii_def bullet_def splitlines_def is_linebreak_def)
  have l': "splitlines example_units_out = [example_units_out]"
    by (simp add: example_units_out_def ascii_def splitlines_def is_linebreak_def)
  have "build_runtime_services []
        (example_units_out @ [10] @ bullet @ ascii '' ssh.service loaded failed failed'') =
      fold (runtime_services_step []) ([example_units_out] @ []) []"
    using short_line_skipped[OF b, of "[]" "[]" "[example_units_out]" "[]"
        "example_units_out @ [10] @ bullet @ ascii '' ssh.service loaded failed failed''"] l
    by blast
  then have c: "build_runtime_services []
        (example_units_out @ [10] @ bullet @ ascii '' ssh.service loaded failed failed'') =
      build_runtime_services [] example_units_out"
    by (simp add: build_runtime_services_def l')
  show ?thesis
    using short_line_skipped[OF a, of "[]" "[]" "[]" "[]"]
      short_line_skipped[OF b, of "[]" "[]" "[]" "[]"] a b c
    by simp
qed

section \<open>The collector: the enablement mapping\<close>

text \<open>
  Claim C10. The loop body that builds the enablement mapping is defined on every line:
  a line of fewer than two tokens (a blank line has none) leaves the mapping as it is,
  and a line of two or more tokens stores the second token under the first, whatever
  tokens follow. When the listing succeeded and a line names a unit file that no later
  line of two or more tokens names, the mapping holds that line's state for the unit
  file: the last occurrence wins.
\<close>

theorem enabled_map_first_two_tokens:
  "(length (split_ws line) < 2 \<longrightarrow> enabled_map_step line m = m)
   \<and> (split_ws line = unit_file # state # rest \<longrightarrow>
        enabled_map_step line m = dict_set unit_file state m)
   \<and> (code = 0 \<and> splitlines out = before @ line # after
        \<and> split_ws line = unit_file # state # rest
        \<and> (\<forall>l\<in>set after. length (split_ws l) < 2 \<or> split_ws l ! 0 \<noteq> unit_file) \<longrightarrow>
        map_of (build_enabled_map code out) unit_file = Some state)"
proof (intro conjI impI)
  assume "length (split_ws line) < 2"
  then show "enabled_map_step line m = m" by (rule enabled_map_step_skip)
next
  assume "split_ws line = unit_file # state # rest"
  then show "enabled_map_step line m = dict_set unit_file state m"
    by (rule enabled_map_step_set)
next
  assume a: "code = 0 \<and> splitlines out = before @ line # after
        \<and> split_ws line = unit_file # state # rest
        \<and> (\<forall>l\<in>set after. length (split_ws l) < 2 \<or> split_ws l ! 0 \<noteq> unit_file)"
  define m0 where "m0 = fold enabled_map_step before []"
  have "build_enabled_map code out = fold enabled_map_step after (enabled_map_step line m0)"
    using a by (simp add: build_enabled_map_def m0_def)
  also have "enabled_map_step line m0 = dict_set unit_file state m0"
    using a by (simp add: enabled_map_step_set)
  finally have "map_of (build_enabled_map code out) unit_file =
                map_of (dict_set unit_file state m0) unit_file"
    using a by (simp add: fold_enabled_map_other)
  then show "map_of (build_enabled_map code out) unit_file = Some state"
    by (simp add: dict_set_def update_conv')
qed

theorem enabled_map_first_two_tokens_witness:
  "enabled_map_step (ascii ''cron.service'') [] = []
   \<and> enabled_map_step (ascii ''ssh.service enabled enabled'') [] =
       [(ascii ''ssh.service'', ascii ''enabled'')]
   \<and> map_of (build_enabled_map 0 duplicate_files_out) (ascii ''ssh.service'') =
       Some (ascii ''enabled'')"
proof -
  have t1: "length (split_ws (ascii ''cron.service'')) < 2"
    by (simp add: ascii_def split_ws_def isspace_def)
  have t2: "split_ws (ascii ''ssh.service enabled enabled'') =
            ascii ''ssh.service'' # ascii ''enabled'' # [ascii ''enabled'']"
    by (simp add: ascii_def split_ws_def isspace_def)
  have t3: "\<forall>l\<in>set [ascii ''cron.service''].
              length (split_ws l) < 2 \<or> split_ws l ! 0 \<noteq> ascii ''ssh.service''"
    using t1 by simp
  show ?thesis
    using enabled_map_first_two_tokens
      [of "ascii ''cron.service''" "[]" "ascii ''cron.service''" "[]" "[]" 1 "[]" "[]" "[]"]
      enabled_map_first_two_tokens
      [of "ascii ''ssh.service enabled enabled''" "[]" "ascii ''ssh.service''"
          "ascii ''enabled''" "[ascii ''enabled'']" 0 duplicate_files_out
          "[ascii ''ssh.service disabled'']" "[ascii ''cron.service'']"]
      t1 t2 t3 duplicate_files_lines
    by (simp add: dict_set_def)
qed

section \<open>The presentation layer: colour and buttons\<close>

text \<open>
  Claim C3. \<open>service_state_color\<close> is a function of the two strings alone: black when
  \<open>enabled\<close> is \<open>disabled\<close> or \<open>masked\<close>, whatever the activity; otherwise green when
  \<open>active\<close> is \<open>active\<close>; otherwise red. So (active, enabled) is green,
  (inactive, disabled) and (failed, masked) are black, and (failed, static) is red.
\<close>

theorem service_state_color_classification:
  "service_state_color active_state enabled_state =
     (if enabled_state = ascii ''disabled'' \<or> enabled_state = ascii ''masked''
      then QColor (ascii ''black'')
      else if active_state = ascii ''active'' then QColor (ascii ''green'')
      else QColor (ascii ''red''))
   \<and> service_state_color (ascii ''active'') (ascii ''enabled'') = QColor (ascii ''green'')
   \<and> service_state_color (ascii ''inactive'') (ascii ''disabled'') = QColor (ascii ''black'')
   \<and> service_state_color (ascii ''failed'') (ascii ''masked'') = QColor (ascii ''black'')
   \<and> service_state_color (ascii ''failed'') (ascii ''static'') = QColor (ascii ''red'')"
  by (simp add: service_state_color_def ascii_def)

text \<open>
  Claim C4. When no unit is selected, \<open>update_buttons_enabled_state\<close> disables every
  button. When the row of a unit is selected, for every pair of strings in its \<open>active\<close>
  and \<open>enabled\<close> columns: Start is enabled exactly when \<open>active\<close> is not \<open>active\<close>, Stop
  and Restart exactly when it is, Reload always, and Enable, Disable, Mask and Unmask are
  (off, on, on, off) for \<open>enabled\<close>, (on, off, on, off) for \<open>disabled\<close>,
  (off, off, off, on) for \<open>masked\<close> and (on, on, on, on) for every other string. The
  code takes a row to be selected when its unit name is not empty, which
  \<open>collected_units_nonempty\<close> shows of every collected record.
\<close>

theorem update_buttons_table:
  "(get_selected_unit selection = [] \<longrightarrow>
      update_buttons_enabled_state selection =
        \<lparr>start_button = False, stop_button = False, restart_button = False,
         reload_button = False, enable_button = False, disable_button = False,
         mask_button = False, unmask_button = False, status_button = False\<rparr>)
   \<and> update_buttons_enabled_state None =
        \<lparr>start_button = False, stop_button = False, restart_button = False,
         reload_button = False, enable_button = False, disable_button = False,
         mask_button = False, unmask_button = False, status_button = False\<rparr>
   \<and> (unit row \<noteq> [] \<longrightarrow>
        (let b = update_buttons_enabled_state (Some row) in
           start_button b = (active row \<noteq> ascii ''active'')
         \<and> stop_button b = (active row = ascii ''active'')
         \<and> restart_button b = (active row = ascii ''active'')
         \<and> reload_button b
         \<and> (enable_button b, disable_button b, mask_button b, unmask_button b) =
             (if enabled row = ascii ''enabled'' then (False, True, True, False)
              else if enabled row = ascii ''disabled'' then (True, False, True, False)
              else if enabled row = ascii ''masked'' then (False, False, False, True)
              else (True, True, True, True))))"
  by (simp add: update_buttons_enabled_state_def get_selected_unit_def
      get_selected_row_states_def Let_def)

theorem update_buttons_table_witness:
  "update_buttons_enabled_state None =
     \<lparr>start_button = False, stop_button = False, restart_button = False,
      reload_button = False, enable_button = False, disable_button = False,
      mask_button = False, unmask_button = False, status_button = False\<rparr>
   \<and> update_buttons_enabled_state
       (Some \<lparr>unit = ascii ''ssh.service'', load = ascii ''loaded'', active = [],
              sub = ascii ''dead'', description = ascii ''Secure Shell'',
              enabled = ascii ''?''\<rparr>) =
     \<lparr>start_button = True, stop_button = False, restart_button = False,
      reload_button = True, enable_button = True, disable_button = True,
      mask_button = True, unmask_button = True, status_button = True\<rparr>"
proof -
  have n: "get_selected_unit None = []"
    by (simp add: get_selected_unit_def)
  have u: "unit \<lparr>unit = ascii ''ssh.service'', load = ascii ''loaded'', active = [],
              sub = ascii ''dead'', description = ascii ''Secure Shell'',
              enabled = ascii ''?''\<rparr> \<noteq> []"
    by (simp add: ascii_def)
  have s: "status_button (update_buttons_enabled_state
       (Some \<lparr>unit = ascii ''ssh.service'', load = ascii ''loaded'', active = [],
              sub = ascii ''dead'', description = ascii ''Secure Shell'',
              enabled = ascii ''?''\<rparr>))"
    using u by (simp add: update_buttons_enabled_state_def get_selected_unit_def
        get_selected_row_states_def Let_def)
  show ?thesis
    using update_buttons_table [of None]
      update_buttons_table
        [of _ "\<lparr>unit = ascii ''ssh.service'', load = ascii ''loaded'', active = [],
              sub = ascii ''dead'', description = ascii ''Secure Shell'',
              enabled = ascii ''?''\<rparr>"]
      n u s
    by (simp add: Let_def ascii_def buttons.equality)
qed

end
